theory Spec2Isabelle
  imports Complex_Main "HOL-Library.Log_Nat"
begin

section \<open>JavaScript values used by the review pipeline\<close>

text \<open>
  A JavaScript number that the pipeline only ever adds to: either an integer or \<open>NaN\<close>
  (what \<open>undefined + 1\<close> and \<open>0 + undefined\<close> evaluate to).
\<close>

datatype jsnum = Num int | NaN

fun js_add :: "jsnum \<Rightarrow> jsnum \<Rightarrow> jsnum" where
  "js_add (Num a) (Num b) = Num (a + b)"
| "js_add _ _ = NaN"

text \<open>\<open>ToNumber\<close> of a property read: an absent property reads as \<open>undefined\<close>, which is \<open>NaN\<close>.\<close>

fun to_number :: "jsnum option \<Rightarrow> jsnum" where
  "to_number None = NaN"
| "to_number (Some v) = v"

text \<open>Truthiness of a string: only the empty string is falsy.\<close>

definition truthy_str :: "string \<Rightarrow> bool" where
  "truthy_str s \<longleftrightarrow> s \<noteq> []"

text \<open>Truthiness of an optional string property: \<open>undefined\<close> and \<open>''\<close> are falsy.\<close>

fun truthy_opt_str :: "string option \<Rightarrow> bool" where
  "truthy_opt_str None = False"
| "truthy_opt_str (Some s) = truthy_str s"

text \<open>
  JavaScript numbers are IEEE 754 doubles. \<open>double x\<close> is the double nearest to a
  non-negative rational \<open>x\<close> (ties to the even significand), which is what a division or
  a multiplication of two doubles returns for the exact result \<open>x\<close>. \<open>exponent x\<close> is the
  \<open>e\<close> with \<open>2^e \<le> x < 2^(e+1)\<close>; the significand has 53 bits. Overflow and subnormal
  numbers are out of the range the pipeline reaches.
\<close>

definition round_half_even :: "rat \<Rightarrow> int" where
  "round_half_even y =
     (let f = \<lfloor>y\<rfloor>; r = y - of_int f
      in if r < 1 / 2 then f else if 1 / 2 < r then f + 1 else if even f then f else f + 1)"

definition exponent :: "rat \<Rightarrow> int" where
  "exponent x =
     (let d = bitlen (fst (quotient_of x)) - bitlen (snd (quotient_of x))
      in if 2 powi d \<le> x then d else d - 1)"

definition double :: "rat \<Rightarrow> rat" where
  "double x =
     (if x = 0 then 0
      else of_int (round_half_even (x / 2 powi (exponent x - 52))) * 2 powi (exponent x - 52))"

text \<open>\<open>Math.round\<close>: the nearest integer, ties towards \<open>+\<infinity>\<close>.\<close>

definition Math_round :: "rat \<Rightarrow> int" where
  "Math_round x = \<lfloor>x + 1 / 2\<rfloor>"

section \<open>Property reads and writes on object literals\<close>

text \<open>
  An object literal inherits from \<open>Object.prototype\<close>, so \<open>obj[k]\<close> for a key the literal
  does not own is \<open>undefined\<close> only when \<open>k\<close> is not one of the inherited member names.
\<close>

definition Object_prototype :: "string list" where
  "Object_prototype =
     [''constructor'', ''__defineGetter__'', ''__defineSetter__'', ''hasOwnProperty'',
      ''__lookupGetter__'', ''__lookupSetter__'', ''isPrototypeOf'', ''propertyIsEnumerable'',
      ''toString'', ''valueOf'', ''__proto__'', ''toLocaleString'']"

text \<open>
  The value of \<open>obj[k]\<close> on a literal whose own values are strings: \<open>undefined\<close>, an own
  string, or an inherited function or object (named by its key).
\<close>

datatype looked_up = Missing | Text string | Builtin string

definition js_get :: "(string \<rightharpoonup> string) \<Rightarrow> string \<Rightarrow> looked_up" where
  "js_get obj k =
     (case obj k of
        Some v \<Rightarrow> Text v
      | None \<Rightarrow> if k \<in> set Object_prototype then Builtin k else Missing)"

fun truthy :: "looked_up \<Rightarrow> bool" where
  "truthy Missing = False"
| "truthy (Text s) = truthy_str s"
| "truthy (Builtin k) = True"

text \<open>\<open>a || b\<close>\<close>

definition or_else :: "looked_up \<Rightarrow> looked_up \<Rightarrow> looked_up" where
  "or_else a b = (if truthy a then a else b)"

text \<open>
  \<open>obj[k] = v\<close> for a primitive \<open>v\<close>: the key becomes an own property, except for the
  accessor \<open>__proto__\<close>, whose setter ignores a primitive.
\<close>

definition js_set :: "(string \<rightharpoonup> 'a) \<Rightarrow> string \<Rightarrow> 'a \<Rightarrow> (string \<rightharpoonup> 'a)" where
  "js_set obj k v = (if k = ''__proto__'' then obj else obj(k \<mapsto> v))"

text \<open>\<open>String.prototype.toLowerCase\<close>, on ASCII.\<close>

definition lower_char :: "char \<Rightarrow> char" where
  "lower_char c =
     (case map_of (zip ''ABCDEFGHIJKLMNOPQRSTUVWXYZ'' ''abcdefghijklmnopqrstuvwxyz'') c of
        Some d \<Rightarrow> d
      | None \<Rightarrow> c)"

definition toLowerCase :: "string \<Rightarrow> string" where
  "toLowerCase s = map lower_char s"

section \<open>BaseAgent\<close>

record agent =
  name :: string
  specialty :: string

text \<open>One element of \<open>findings.issues\<close>, in the shape the prompt of \<open>buildUserPrompt\<close> asks for.\<close>

record issue =
  severity :: string
  line :: "nat option"
  description :: string
  recommendation :: string

text \<open>
  The parsed JSON reply. \<open>issues\<close> and \<open>score\<close> may be missing (\<open>None\<close>); the code guards
  both reads with a truthiness test.
\<close>

record findings_t =
  issues :: "issue list option"
  summary :: string
  score :: "int option"

text \<open>
  What the remote completion call of one agent does: it raises an \<open>Error\<close> with a message
  (network failure, quota, a reply that \<open>JSON.parse\<close> rejects), or it answers with parsed
  JSON (\<open>None\<close> for the JSON value \<open>null\<close>) and a token count.
\<close>

datatype remote = Raises string | Responds "findings_t option" nat

text \<open>The object \<open>analyze\<close> resolves to; the success and the error shape share one record.\<close>

record agent_result =
  agentName :: string
  specialtyR :: string
  findings :: "findings_t option"
  tokensUsed :: "nat option"
  error :: "string option"

text \<open>
  A promise that has settled: \<open>Inl\<close> is a rejection with its message, \<open>Inr\<close> a fulfilment.
  \<open>analyze\<close> wraps its whole body in \<open>try\<close>/\<open>catch\<close> and returns from the handler, so it
  fulfils on both paths.
\<close>

type_synonym 'a promise = "string + 'a"

definition analyze :: "agent \<Rightarrow> remote \<Rightarrow> agent_result promise" where
  "analyze a r =
     (case r of
        Responds analysis tokens \<Rightarrow>
          Inr \<lparr>agentName = name a, specialtyR = specialty a, findings = analysis,
               tokensUsed = Some tokens, error = None\<rparr>
      | Raises msg \<Rightarrow>
          Inr \<lparr>agentName = name a, specialtyR = specialty a, findings = None,
               tokensUsed = None, error = Some msg\<rparr>)"

section \<open>AgentOrchestrator\<close>

definition agents :: "agent list" where
  "agents =
     [\<lparr>name = ''Bug Detective'', specialty = ''bug_detection''\<rparr>,
      \<lparr>name = ''Performance Optimizer'', specialty = ''performance''\<rparr>,
      \<lparr>name = ''Code Style Critic'', specialty = ''style''\<rparr>,
      \<lparr>name = ''Security Guardian'', specialty = ''security''\<rparr>]"

text \<open>
  \<open>Promise.all\<close>: fulfils with every value when all inputs fulfil, and rejects with the
  first rejection otherwise.
\<close>

fun promise_all :: "'a promise list \<Rightarrow> 'a list promise" where
  "promise_all [] = Inr []"
| "promise_all (Inl e # ps) = Inl e"
| "promise_all (Inr v # ps) = (case promise_all ps of Inl e \<Rightarrow> Inl e | Inr vs \<Rightarrow> Inr (v # vs))"

text \<open>An issue as pushed onto \<open>allIssues\<close>: the spread of the issue plus \<open>agent\<close> and \<open>specialty\<close>.\<close>

record tagged_issue = issue +
  agent :: string
  specialtyI :: string

type_synonym tally = "string \<rightharpoonup> jsnum"

text \<open>
  \<open>issuesBySeverity[issue.severity]++\<close>. A key the object does not own reads as
  \<open>undefined\<close> (or as an inherited function), whose increment is \<open>NaN\<close>; the assignment
  then creates the key.
\<close>

definition increment :: "tally \<Rightarrow> string \<Rightarrow> tally" where
  "increment t k = js_set t k (js_add (to_number (t k)) (Num 1))"

definition tag_issue :: "agent_result \<Rightarrow> issue \<Rightarrow> tagged_issue" where
  "tag_issue r i = issue.extend i \<lparr>agent = agentName r, specialtyI = specialtyR r\<rparr>"

text \<open>The body of the inner \<open>forEach\<close>, on the pair of accumulators it mutates.\<close>

definition count_issue :: "agent_result \<Rightarrow> tally \<times> tagged_issue list \<Rightarrow> issue
    \<Rightarrow> tally \<times> tagged_issue list" where
  "count_issue r acc i = (increment (fst acc) (severity i), snd acc @ [tag_issue r i])"

text \<open>The body of the outer \<open>forEach\<close>: \<open>if (result.findings && result.findings.issues)\<close>.\<close>

definition collect_issues :: "tally \<times> tagged_issue list \<Rightarrow> agent_result
    \<Rightarrow> tally \<times> tagged_issue list" where
  "collect_issues acc r =
     (case findings r of
        None \<Rightarrow> acc
      | Some f \<Rightarrow> (case issues f of None \<Rightarrow> acc | Some is \<Rightarrow> foldl (count_issue r) acc is))"

text \<open>\<open>r.findings && r.findings.score\<close>: a missing score and the score \<open>0\<close> are both falsy.\<close>

definition truthy_score :: "agent_result \<Rightarrow> int option" where
  "truthy_score r =
     (case findings r of
        None \<Rightarrow> None
      | Some f \<Rightarrow> (case score f of None \<Rightarrow> None | Some s \<Rightarrow> if s = 0 then None else Some s))"

record report =
  success :: bool
  overallScore :: int
  totalIssuesFound :: nat
  issuesBySeverity :: tally
  agentResults :: "agent_result list"
  failedAgents :: "agent_result list"
  allIssues :: "tagged_issue list"
  agentsRun :: nat
  totalTokens :: jsnum

text \<open>
  \<open>aggregateResults\<close>. The scores are integers, as the prompt asks. The wall-clock
  fields (\<open>totalDuration\<close>, \<open>timestamp\<close>) and the \<open>toFixed\<close> string \<open>estimatedCost\<close> are
  left out.
\<close>

definition aggregateResults :: "agent_result list \<Rightarrow> report" where
  "aggregateResults results =
     (let successful = filter (\<lambda>r. \<not> truthy_opt_str (error r)) results;
          failed = filter (\<lambda>r. truthy_opt_str (error r)) results;
          acc = foldl collect_issues
                  ([''high'' \<mapsto> Num 0, ''medium'' \<mapsto> Num 0, ''low'' \<mapsto> Num 0], []) successful;
          scores = List.map_filter truthy_score successful;
          total = foldl (\<lambda>sum r. js_add sum (case tokensUsed r of None \<Rightarrow> NaN | Some n \<Rightarrow> Num (int n)))
                    (Num 0) successful
      in \<lparr>success = True,
          overallScore =
            (if length scores > 0
             then Math_round (double (of_int (foldl (+) 0 scores) / of_nat (length scores)))
             else 0),
          totalIssuesFound = length (snd acc),
          issuesBySeverity = fst acc,
          agentResults = successful,
          failedAgents = failed,
          allIssues = snd acc,
          agentsRun = length successful,
          totalTokens = total\<rparr>)"

text \<open>
  \<open>analyzeCode\<close>: \<open>openai\<close> is the remote behaviour of this invocation, per agent. The
  \<open>catch\<close> logs and rethrows, so a rejection of \<open>Promise.all\<close> is the rejection of the call.
\<close>

definition analyzeCode :: "(agent \<Rightarrow> string \<Rightarrow> string \<Rightarrow> remote) \<Rightarrow> string \<Rightarrow> string
    \<Rightarrow> report promise" where
  "analyzeCode openai code language =
     (case promise_all (map (\<lambda>a. analyze a (openai a code language)) agents) of
        Inl e \<Rightarrow> Inl e
      | Inr results \<Rightarrow> Inr (aggregateResults results))"

section \<open>The review worker: stores, queue and collaborators\<close>

datatype job_status = Queued | Processing | Completed | Failed

type_synonym timestamp = string

text \<open>A row of \<open>review_jobs\<close>, with the columns the worker writes.\<close>

record job_row =
  status :: job_status
  progress :: nat
  total_files :: "nat option"
  processed_files :: nat
  error_message :: "string option"
  started_at :: "timestamp option"
  completed_at :: "timestamp option"

text \<open>
  The row the \<open>POST /repositories\<close> route inserts (\<open>status: 'queued', progress: 0\<close>), the
  other columns at their schema defaults.
\<close>

definition new_job :: job_row where
  "new_job =
     \<lparr>status = Queued, progress = 0, total_files = None, processed_files = 0,
      error_message = None, started_at = None, completed_at = None\<rparr>"

text \<open>The \<open>updates\<close> object of \<open>updateJobStatus\<close>: each column is either given or left alone.\<close>

record job_update =
  set_status :: "job_status option"
  set_progress :: "nat option"
  set_total_files :: "nat option"
  set_processed_files :: "nat option"
  set_error_message :: "string option"
  set_started_at :: "timestamp option"
  set_completed_at :: "timestamp option"

definition no_update :: job_update where
  "no_update =
     \<lparr>set_status = None, set_progress = None, set_total_files = None,
      set_processed_files = None, set_error_message = None, set_started_at = None,
      set_completed_at = None\<rparr>"

definition apply_update :: "job_update \<Rightarrow> job_row \<Rightarrow> job_row" where
  "apply_update u r =
     \<lparr>status = (case set_status u of None \<Rightarrow> status r | Some v \<Rightarrow> v),
      progress = (case set_progress u of None \<Rightarrow> progress r | Some v \<Rightarrow> v),
      total_files = (case set_total_files u of None \<Rightarrow> total_files r | Some v \<Rightarrow> Some v),
      processed_files = (case set_processed_files u of None \<Rightarrow> processed_files r | Some v \<Rightarrow> v),
      error_message = (case set_error_message u of None \<Rightarrow> error_message r | Some v \<Rightarrow> Some v),
      started_at = (case set_started_at u of None \<Rightarrow> started_at r | Some v \<Rightarrow> Some v),
      completed_at = (case set_completed_at u of None \<Rightarrow> completed_at r | Some v \<Rightarrow> Some v)\<rparr>"

record job_data =
  jobId :: string
  repoId :: string

record repo =
  repo_url :: string
  branch :: string

text \<open>An element of the array \<open>parseCodeFiles\<close> returns.\<close>

record code_file =
  path :: string
  content :: string
  language :: string

text \<open>An element of \<open>analysisResults\<close>.\<close>

record file_result =
  fileF :: string
  languageF :: string
  results :: report

text \<open>A row of the \<open>agents\<close> table, as selected (\<open>id, name\<close>).\<close>

record db_agent =
  idD :: string
  nameD :: string

text \<open>A row pushed onto \<open>allFindings\<close> for the \<open>reviews\<close> table.\<close>

record review_row =
  job_id :: string
  repo_id :: string
  agent_id :: looked_up
  file_path :: string
  line_number :: "nat option"
  severityC :: looked_up
  category :: looked_up
  title :: string
  descriptionC :: string
  suggestion :: "string option"

text \<open>The row inserted into \<open>review_results\<close>.\<close>

record results_row =
  totalFiles :: nat
  totalIssuesR :: nat
  totalTokensR :: jsnum
  fileResults :: "file_result list"
  highSeverity :: jsnum
  mediumSeverity :: jsnum
  lowSeverity :: jsnum
  overall_score :: int

text \<open>The \<open>warn\<close> and \<open>error\<close> lines of the worker's log (the other levels are left out).\<close>

datatype log_line =
    AnalysisFailed string
  | SaveResultsFailed string
  | FetchAgentsFailed string
  | NoAgentsFound
  | SkippingFileResult
  | AgentIdNotFound string string
  | InsertBatchFailed nat string
  | JobFailed string
  | UpdateJobFailed string
  | UpdateRepositoryFailed string

text \<open>
  What an observer of the stores, the queue and the log sees, in order: an update sent to
  \<open>review_jobs\<close>, the row after the store accepted it, a status written to \<open>repositories\<close>,
  a \<open>job.progress(n)\<close> call, the orchestrator being called for a file, a log line, and the
  removal of the clone directory.
\<close>

datatype event =
    JobUpdate job_update
  | JobState job_row
  | RepoStatus string
  | Progress nat
  | Analysed string
  | Log log_line
  | Cleanup string

text \<open>
  The collaborators of one run: the queue payload, the \<open>repositories\<close> lookup (\<open>None\<close> when
  it errs or finds no row), the clock, the store's answer to the \<open>k\<close>-th update of the run
  (\<open>Some\<close> is the error), the temporary directory and what \<open>git.clone\<close> into it does
  (\<open>Some\<close> is its error message), the parsed files, the completion service (per file index and agent), and the
  answers of the three remaining store calls.
\<close>

record env =
  data :: job_data
  repository :: "repo option"
  now :: timestamp
  storeError :: "nat \<Rightarrow> string option"
  tempDir :: string
  gitClone :: "string option"
  parsedFiles :: "code_file list"
  openai :: "nat \<Rightarrow> agent \<Rightarrow> string \<Rightarrow> string \<Rightarrow> remote"
  insertResults :: "string option"
  agentsTable :: "string + db_agent list"
  insertReviews :: "nat \<Rightarrow> string option"

record world =
  job :: job_row
  repo_status :: string
  review_results :: "results_row list"
  reviews :: "review_row list"
  trace :: "event list"
  writes :: nat
  cleanup :: "string option"

text \<open>
  A step of the worker: it ends with a thrown error message (\<open>Inl\<close>) or a value, and
  leaves a world behind in both cases.
\<close>

type_synonym 'a step = "world \<Rightarrow> (string + 'a) \<times> world"

definition and_then :: "'a step \<Rightarrow> ('a \<Rightarrow> 'b step) \<Rightarrow> 'b step" where
  "and_then m f w = (case m w of (Inl e, w') \<Rightarrow> (Inl e, w') | (Inr a, w') \<Rightarrow> f a w')"

definition emit :: "event \<Rightarrow> unit step" where
  "emit e w = (Inr (), w\<lparr>trace := trace w @ [e]\<rparr>)"

definition throw :: "string \<Rightarrow> 'a step" where
  "throw msg w = (Inl msg, w)"

definition succeed :: "'a \<Rightarrow> 'a step" where
  "succeed v w = (Inr v, w)"

text \<open>\<open>updateJobStatus\<close>: logs and rethrows the store's error.\<close>

definition updateJobStatus :: "env \<Rightarrow> job_update \<Rightarrow> unit step" where
  "updateJobStatus en updates w =
     (let w1 = w\<lparr>writes := Suc (writes w), trace := trace w @ [JobUpdate updates]\<rparr>
      in case storeError en (writes w) of
           Some msg \<Rightarrow> (Inl msg, w1\<lparr>trace := trace w1 @ [Log (UpdateJobFailed msg)]\<rparr>)
         | None \<Rightarrow>
             (Inr (), w1\<lparr>job := apply_update updates (job w),
                         trace := trace w1 @ [JobState (apply_update updates (job w))]\<rparr>))"

definition updateRepositoryStatus :: "env \<Rightarrow> string \<Rightarrow> unit step" where
  "updateRepositoryStatus en s w =
     (let w1 = w\<lparr>writes := Suc (writes w)\<rparr>
      in case storeError en (writes w) of
           Some msg \<Rightarrow> (Inl msg, w1\<lparr>trace := trace w1 @ [Log (UpdateRepositoryFailed msg)]\<rparr>)
         | None \<Rightarrow> (Inr (), w1\<lparr>repo_status := s, trace := trace w1 @ [RepoStatus s]\<rparr>))"

text \<open>
  \<open>cloneRepository\<close>, with the worker's \<open>cleanup = cloneResult.cleanup\<close>: a failed
  \<open>git.clone\<close> removes the directory and is rethrown as \<open>Clone failed: ...\<close>.
\<close>

definition cloneRepository :: "env \<Rightarrow> string step" where
  "cloneRepository en =
     (case gitClone en of
        Some msg \<Rightarrow>
          and_then (emit (Cleanup (tempDir en))) (\<lambda>_. throw (''Clone failed: '' @ msg))
      | None \<Rightarrow> (\<lambda>w. (Inr (tempDir en), w\<lparr>cleanup := Some (tempDir en)\<rparr>)))"

text \<open>
  \<open>40 + Math.floor((processed / files.length) * 50)\<close>: the quotient and the product are
  each rounded to a double. (The loop calls it with \<open>1 \<le> processed \<le> files.length\<close> only.)
\<close>

definition progressPercent :: "nat \<Rightarrow> nat \<Rightarrow> nat" where
  "progressPercent processed n =
     40 + nat \<lfloor>double (double (of_nat processed / of_nat n) * 50)\<rfloor>"

text \<open>The variables the per-file loop accumulates (the string-valued cost is left out).\<close>

record totals =
  analysisResults :: "file_result list"
  totalIssues :: nat
  totalTokensW :: jsnum

text \<open>
  The body of the \<open>for\<close> loop over \<open>files\<close>, from index \<open>i\<close> on; \<open>n\<close> is \<open>files.length\<close>.
\<close>

fun analyzeFiles :: "env \<Rightarrow> nat \<Rightarrow> nat \<Rightarrow> code_file list \<Rightarrow> totals \<Rightarrow> totals step" where
  "analyzeFiles en n i [] acc = succeed acc"
| "analyzeFiles en n i (f # fs) acc =
     and_then (emit (Analysed (path f))) (\<lambda>_.
     case analyzeCode (openai en i) (content f) (language f) of
       Inl e \<Rightarrow> throw e
     | Inr res \<Rightarrow>
         and_then
           (if success res
            then succeed
                   \<lparr>analysisResults =
                      analysisResults acc @ [\<lparr>fileF = path f, languageF = language f, results = res\<rparr>],
                    totalIssues = totalIssues acc + totalIssuesFound res,
                    totalTokensW = js_add (totalTokensW acc) (totalTokens res)\<rparr>
            else and_then (emit (Log (AnalysisFailed (path f)))) (\<lambda>_. succeed acc))
           (\<lambda>acc'.
         and_then
           (updateJobStatus en
              (no_update\<lparr>set_processed_files := Some (i + 1),
                         set_progress := Some (progressPercent (i + 1) n)\<rparr>)) (\<lambda>_.
         and_then (emit (Progress (progressPercent (i + 1) n))) (\<lambda>_.
         analyzeFiles en n (i + 1) fs acc'))))"

text \<open>The object inserted into \<open>review_results\<close> (step 6), with \<open>avgScore\<close>.\<close>

definition aggregatedResults :: "nat \<Rightarrow> totals \<Rightarrow> results_row" where
  "aggregatedResults n acc =
     (let rs = analysisResults acc;
          bucket = (\<lambda>k. foldl (\<lambda>sum r. js_add sum (to_number (issuesBySeverity (results r) k)))
                            (Num 0) rs)
      in \<lparr>totalFiles = n,
          totalIssuesR = totalIssues acc,
          totalTokensR = totalTokensW acc,
          fileResults = rs,
          highSeverity = bucket ''high'',
          mediumSeverity = bucket ''medium'',
          lowSeverity = bucket ''low'',
          overall_score =
            (if length rs > 0
             then Math_round (double (of_int (foldl (\<lambda>sum r. sum + overallScore (results r)) 0 rs)
                                       / of_nat (length rs)))
             else 0)\<rparr>)"

definition saveResults :: "env \<Rightarrow> results_row \<Rightarrow> unit step" where
  "saveResults en row =
     (case insertResults en of
        Some msg \<Rightarrow> and_then (emit (Log (SaveResultsFailed msg))) (\<lambda>_. throw msg)
      | None \<Rightarrow> (\<lambda>w. (Inr (), w\<lparr>review_results := review_results w @ [row]\<rparr>)))"

text \<open>
  The \<open>agents\<close> table read: an error is logged and leaves \<open>agents\<close> null, which is
  warned about and gives an empty \<open>agentMap\<close>.
\<close>

definition fetchAgents :: "env \<Rightarrow> db_agent list option step" where
  "fetchAgents en =
     and_then
       (case agentsTable en of
          Inl msg \<Rightarrow> and_then (emit (Log (FetchAgentsFailed msg))) (\<lambda>_. succeed None)
        | Inr rows \<Rightarrow> succeed (Some rows)) (\<lambda>dbAgents.
     case dbAgents of
       None \<Rightarrow> and_then (emit (Log NoAgentsFound)) (\<lambda>_. succeed None)
     | Some rows \<Rightarrow> succeed (Some rows))"

definition agentMapOf :: "db_agent list option \<Rightarrow> (string \<rightharpoonup> string)" where
  "agentMapOf dbAgents =
     (case dbAgents of
        None \<Rightarrow> Map.empty
      | Some rows \<Rightarrow>
          foldl (\<lambda>m a. js_set (js_set m (toLowerCase (nameD a)) (idD a)) (nameD a) (idD a))
            Map.empty rows)"

definition specialtyToDbName :: "string \<rightharpoonup> string" where
  "specialtyToDbName =
     [''bug_detection'' \<mapsto> ''bug'', ''performance'' \<mapsto> ''performance'',
      ''security'' \<mapsto> ''security'', ''style'' \<mapsto> ''style'']"

definition specialtyToCategory :: "string \<rightharpoonup> string" where
  "specialtyToCategory =
     [''bug_detection'' \<mapsto> ''bug'', ''security'' \<mapsto> ''security'',
      ''performance'' \<mapsto> ''performance'', ''style'' \<mapsto> ''style'']"

definition severityMap :: "string \<rightharpoonup> string" where
  "severityMap =
     [''critical'' \<mapsto> ''critical'', ''high'' \<mapsto> ''high'', ''medium'' \<mapsto> ''medium'',
      ''low'' \<mapsto> ''low'', ''info'' \<mapsto> ''info'']"

text \<open>
  What an inherited member turns into when used as a property key (\<open>String(value)\<close> on
  Node): \<open>Object.prototype\<close> itself for \<open>__proto__\<close>, a native function otherwise.
\<close>

definition builtin_key :: "string \<Rightarrow> string" where
  "builtin_key k =
     (if k = ''__proto__'' then ''[object Object]''
      else ''function '' @ (if k = ''constructor'' then ''Object'' else k) @ ''() { [native code] }'')"

text \<open>
  The lookup by specialty, \<open>agentMap[dbName] || agentMap[dbName.toLowerCase()]\<close>. \<open>dbName\<close>
  is a string, or an inherited member of \<open>specialtyToDbName\<close>; for the latter, when nothing
  is found under it, \<open>dbName.toLowerCase()\<close> raises a \<open>TypeError\<close>.
\<close>

definition bySpecialty :: "(string \<rightharpoonup> string) \<Rightarrow> string \<Rightarrow> string + looked_up" where
  "bySpecialty agentMap sp =
     (case or_else (js_get specialtyToDbName sp) (Text (toLowerCase sp)) of
        Text dbName \<Rightarrow>
          Inr (or_else (js_get agentMap dbName) (js_get agentMap (toLowerCase dbName)))
      | Builtin k \<Rightarrow>
          (if truthy (js_get agentMap (builtin_key k)) then Inr (js_get agentMap (builtin_key k))
           else Inl ''dbName.toLowerCase is not a function'')
      | Missing \<Rightarrow> Inl ''Cannot read properties of undefined (reading 'toLowerCase')'')"

definition byName :: "(string \<rightharpoonup> string) \<Rightarrow> string \<Rightarrow> looked_up" where
  "byName agentMap displayName =
     or_else (js_get agentMap displayName) (js_get agentMap (toLowerCase displayName))"

text \<open>The body of the loop over the issues of one file: one row, and a warning at most.\<close>

definition flattenIssue :: "env \<Rightarrow> (string \<rightharpoonup> string) \<Rightarrow> string \<Rightarrow> tagged_issue
    \<Rightarrow> review_row step" where
  "flattenIssue en agentMap filePath i =
     (let cat = or_else (js_get specialtyToCategory (specialtyI i)) (Text ''bug'');
          rawSeverity = toLowerCase (if truthy_str (severity i) then severity i else ''medium'');
          sev = or_else (js_get severityMap rawSeverity) (Text ''medium'');
          displayName = agent i;
          sp = specialtyI i
      in case (if truthy_str sp then bySpecialty agentMap sp else Inr Missing) of
           Inl e \<Rightarrow> throw e
         | Inr found \<Rightarrow>
             (let agentId = (if \<not> truthy found \<and> truthy_str displayName
                             then byName agentMap displayName else found)
              in and_then
                   (if \<not> truthy agentId then emit (Log (AgentIdNotFound displayName sp))
                    else succeed ()) (\<lambda>_.
                 succeed
                   \<lparr>job_id = jobId (data en),
                    repo_id = repoId (data en),
                    agent_id = agentId,
                    file_path = filePath,
                    line_number = (case line i of None \<Rightarrow> None
                                   | Some l \<Rightarrow> if l = 0 then None else Some l),
                    severityC = sev,
                    category = cat,
                    title = (if truthy_str (description i) then description i
                             else ''Code issue found''),
                    descriptionC = description i,
                    suggestion = (if truthy_str (recommendation i) then Some (recommendation i)
                                  else None)\<rparr>)))"

fun flattenIssues :: "env \<Rightarrow> (string \<rightharpoonup> string) \<Rightarrow> string \<Rightarrow> tagged_issue list
    \<Rightarrow> review_row list \<Rightarrow> review_row list step" where
  "flattenIssues en agentMap filePath [] allFindings = succeed allFindings"
| "flattenIssues en agentMap filePath (i # is) allFindings =
     and_then (flattenIssue en agentMap filePath i) (\<lambda>row.
     flattenIssues en agentMap filePath is (allFindings @ [row]))"

text \<open>The loop over \<open>analysisResults\<close> that fills \<open>allFindings\<close>.\<close>

fun flattenResults :: "env \<Rightarrow> (string \<rightharpoonup> string) \<Rightarrow> file_result list \<Rightarrow> review_row list
    \<Rightarrow> review_row list step" where
  "flattenResults en agentMap [] allFindings = succeed allFindings"
| "flattenResults en agentMap (fr # frs) allFindings =
     (if \<not> truthy_str (fileF fr)
      then and_then (emit (Log SkippingFileResult)) (\<lambda>_.
           flattenResults en agentMap frs allFindings)
      else if allIssues (results fr) = []
      then flattenResults en agentMap frs allFindings
      else and_then (flattenIssues en agentMap (fileF fr) (allIssues (results fr)) allFindings)
             (\<lambda>allFindings'. flattenResults en agentMap frs allFindings'))"

definition BATCH_SIZE :: nat where
  "BATCH_SIZE = 100"

text \<open>
  The batch loop \<open>for (i = 0; i < allFindings.length; i += BATCH_SIZE)\<close>: a failed insert is
  logged and the loop goes on.
\<close>

function insertBatches :: "env \<Rightarrow> review_row list \<Rightarrow> nat \<Rightarrow> unit step" where
  "insertBatches en allFindings i =
     (if i < length allFindings
      then and_then
             (case insertReviews en i of
                Some msg \<Rightarrow> emit (Log (InsertBatchFailed (i div BATCH_SIZE + 1) msg))
              | None \<Rightarrow>
                  (\<lambda>w. (Inr (), w\<lparr>reviews := reviews w @ take BATCH_SIZE (drop i allFindings)\<rparr>)))
             (\<lambda>_. insertBatches en allFindings (i + BATCH_SIZE))
      else succeed ())"
  by pat_completeness auto
termination
  by (relation "measure (\<lambda>(en, allFindings, i). length allFindings - i)")
     (auto simp: BATCH_SIZE_def)

declare insertBatches.simps [simp del]

definition saveFindings :: "env \<Rightarrow> totals \<Rightarrow> unit step" where
  "saveFindings en acc =
     and_then (fetchAgents en) (\<lambda>dbAgents.
     and_then (flattenResults en (agentMapOf dbAgents) (analysisResults acc) []) (\<lambda>allFindings.
     if length allFindings > 0 then insertBatches en allFindings 0 else succeed ()))"

record job_result =
  jobIdJ :: string
  repoIdJ :: string
  filesProcessed :: nat
  totalIssuesJ :: nat
  overallScoreJ :: int
  statusJ :: string

definition fetchRepository :: "env \<Rightarrow> repo step" where
  "fetchRepository en =
     (case repository en of
        None \<Rightarrow> throw (''Repository not found: '' @ repoId (data en))
      | Some r \<Rightarrow> succeed r)"

text \<open>The \<open>try\<close> block of \<open>processReviewJob\<close>, steps 1 to 7.\<close>

definition tryBlock :: "env \<Rightarrow> job_result step" where
  "tryBlock en =
     and_then (fetchRepository en) (\<lambda>repo.
     and_then (updateJobStatus en
                 (no_update\<lparr>set_status := Some Processing, set_started_at := Some (now en)\<rparr>)) (\<lambda>_.
     and_then (updateRepositoryStatus en ''cloning'') (\<lambda>_.
     and_then (emit (Progress 10)) (\<lambda>_.
     and_then (cloneRepository en) (\<lambda>dir.
     and_then (emit (Progress 30)) (\<lambda>_.
     and_then (updateRepositoryStatus en ''analyzing'') (\<lambda>_.
     let files = parsedFiles en in
     and_then (updateJobStatus en
                 (no_update\<lparr>set_total_files := Some (length files),
                            set_processed_files := Some 0\<rparr>)) (\<lambda>_.
     and_then (emit (Progress 40)) (\<lambda>_.
     and_then (analyzeFiles en (length files) 0 files
                 \<lparr>analysisResults = [], totalIssues = 0, totalTokensW = Num 0\<rparr>) (\<lambda>acc.
     let row = aggregatedResults (length files) acc in
     and_then (saveResults en row) (\<lambda>_.
     and_then (saveFindings en acc) (\<lambda>_.
     and_then (updateJobStatus en
                 (no_update\<lparr>set_status := Some Completed, set_progress := Some 100,
                            set_processed_files := Some (length files),
                            set_completed_at := Some (now en)\<rparr>)) (\<lambda>_.
     and_then (updateRepositoryStatus en ''completed'') (\<lambda>_.
     and_then (emit (Progress 100)) (\<lambda>_.
     succeed
       \<lparr>jobIdJ = jobId (data en), repoIdJ = repoId (data en),
        filesProcessed = length files, totalIssuesJ = totalIssues acc,
        overallScoreJ = overall_score row, statusJ = ''completed''\<rparr>)))))))))))))))"

text \<open>The \<open>catch\<close> block: mark the job and the repository failed, then rethrow.\<close>

definition catchBlock :: "env \<Rightarrow> string \<Rightarrow> job_result step" where
  "catchBlock en msg =
     and_then (emit (Log (JobFailed msg))) (\<lambda>_.
     and_then (updateJobStatus en
                 (no_update\<lparr>set_status := Some Failed, set_error_message := Some msg,
                            set_completed_at := Some (now en)\<rparr>)) (\<lambda>_.
     and_then (updateRepositoryStatus en ''failed'') (\<lambda>_.
     throw msg)))"

text \<open>The \<open>finally\<close> block: \<open>cleanup\<close> is called when the clone had set it.\<close>

definition finallyBlock :: "world \<Rightarrow> world" where
  "finallyBlock w =
     (case cleanup w of None \<Rightarrow> w | Some dir \<Rightarrow> w\<lparr>trace := trace w @ [Cleanup dir]\<rparr>)"

definition processReviewJob :: "env \<Rightarrow> job_result step" where
  "processReviewJob en w =
     (case tryBlock en w of
        (Inr v, w1) \<Rightarrow> (Inr v, finallyBlock w1)
      | (Inl msg, w1) \<Rightarrow> (case catchBlock en msg w1 of (r, w2) \<Rightarrow> (r, finallyBlock w2)))"

text \<open>The stores and the log when the queue hands a newly created job to the worker.\<close>

definition start :: world where
  "start =
     \<lparr>job = new_job, repo_status = ''pending'', review_results = [], reviews = [],
      trace = [], writes = 0, cleanup = None\<rparr>"

section \<open>The review queue\<close>






section \<open>Auxiliary definitions for the statements\<close>

text \<open>The object \<open>analyze\<close> resolves to, as a function of the remote call's outcome.\<close>

definition outcome_of :: "agent \<Rightarrow> remote \<Rightarrow> agent_result" where
  "outcome_of a r =
     (case r of
        Responds analysis tokens \<Rightarrow>
          \<lparr>agentName = name a, specialtyR = specialty a, findings = analysis,
               tokensUsed = Some tokens, error = None\<rparr>
      | Raises msg \<Rightarrow>
          \<lparr>agentName = name a, specialtyR = specialty a, findings = None,
               tokensUsed = None, error = Some msg\<rparr>)"

text \<open>The issues an outcome contributes: none without \<open>findings\<close> or \<open>findings.issues\<close>.\<close>

definition issues_of :: "agent_result \<Rightarrow> issue list" where
  "issues_of r =
     (case findings r of
        None \<Rightarrow> []
      | Some f \<Rightarrow> (case issues f of None \<Rightarrow> [] | Some is \<Rightarrow> is))"


definition sample_issue :: "string \<Rightarrow> issue" where
  "sample_issue sev =
     \<lparr>severity = sev, line = Some 4, description = ''Loop bound reads past the array'',
      recommendation = ''Compare with < instead of <=''\<rparr>"

definition sample_findings :: "issue list \<Rightarrow> int \<Rightarrow> findings_t option" where
  "sample_findings is s = Some \<lparr>issues = Some is, summary = ''reviewed'', score = Some s\<rparr>"

definition security_times_out :: "agent \<Rightarrow> string \<Rightarrow> string \<Rightarrow> remote" where
  "security_times_out a code lang =
     (if specialty a = ''security'' then Raises ''Request timed out.''
      else Responds (sample_findings [sample_issue ''high''] 80) 120)"



definition scored :: "int \<Rightarrow> agent_result" where
  "scored s =
     \<lparr>agentName = ''Bug Detective'', specialtyR = ''bug_detection'',
      findings = sample_findings [] s, tokensUsed = Some 100, error = None\<rparr>"

definition reported :: "issue list \<Rightarrow> agent_result" where
  "reported is =
     \<lparr>agentName = ''Security Guardian'', specialtyR = ''security'',
      findings = sample_findings is 70, tokensUsed = Some 100, error = None\<rparr>"

section \<open>Auxiliary definitions for the worker's statements\<close>

text \<open>
  A step started in a world satisfying \<open>P\<close> ends in one satisfying \<open>Q\<close> when it returns and
  \<open>E\<close> when it throws.
\<close>

definition triple :: "(world \<Rightarrow> bool) \<Rightarrow> 'a step \<Rightarrow> ('a \<Rightarrow> world \<Rightarrow> bool) \<Rightarrow> (string \<Rightarrow> world \<Rightarrow> bool)
    \<Rightarrow> bool" where
  "triple P m Q E \<longleftrightarrow>
     (\<forall>w. P w \<longrightarrow> (case m w of (Inr a, w') \<Rightarrow> Q a w' | (Inl e, w') \<Rightarrow> E e w'))"

text \<open>A step only appends to the trace, and what it appends satisfies \<open>P\<close>.\<close>

definition appends :: "(event list \<Rightarrow> bool) \<Rightarrow> 'a step \<Rightarrow> bool" where
  "appends P m \<longleftrightarrow> (\<forall>w. \<exists>es. trace (snd (m w)) = trace w @ es \<and> P es)"

text \<open>The \<open>review_jobs\<close> row at every instant an observer can see it, from its creation on.\<close>

fun snapshots :: "event list \<Rightarrow> job_row list" where
  "snapshots [] = []"
| "snapshots (JobState r # es) = r # snapshots es"
| "snapshots (e # es) = snapshots es"

definition job_history :: "event list \<Rightarrow> job_row list" where
  "job_history tr = new_job # snapshots tr"

text \<open>The values passed to \<open>job.progress\<close>, in order.\<close>

fun emitted :: "event list \<Rightarrow> nat list" where
  "emitted [] = []"
| "emitted (Progress n # es) = n # emitted es"
| "emitted (e # es) = emitted es"

text \<open>\<open>processed_files \<le> total_files\<close>, an unset total counting as \<open>0\<close>.\<close>

definition in_bounds :: "job_row \<Rightarrow> bool" where
  "in_bounds r \<longleftrightarrow> processed_files r \<le> (case total_files r of None \<Rightarrow> 0 | Some t \<Rightarrow> t)"



text \<open>Every issue of a report carries the specialty of a configured agent.\<close>

definition known_specialties :: "report \<Rightarrow> bool" where
  "known_specialties rep \<longleftrightarrow> (\<forall>i\<in>set (allIssues rep). specialtyI i \<in> specialty ` set agents)"

text \<open>A sample run: one file, the Security agent timing out, every store call accepted.\<close>

definition sample_env :: env where
  "sample_env =
     \<lparr>data = \<lparr>jobId = ''job-1'', repoId = ''repo-1''\<rparr>,
      repository = Some \<lparr>repo_url = ''https://github.com/acme/app'', branch = ''main''\<rparr>,
      now = ''2025-01-01T00:00:00.000Z'',
      storeError = (\<lambda>k. None),
      tempDir = ''/tmp/repo-1'',
      gitClone = None,
      parsedFiles = [\<lparr>path = ''src/a.js'', content = ''f(x)'', language = ''JavaScript''\<rparr>],
      openai = (\<lambda>i. security_times_out),
      insertResults = None,
      agentsTable = Inr [\<lparr>idD = ''a-1'', nameD = ''bug''\<rparr>, \<lparr>idD = ''a-2'', nameD = ''security''\<rparr>,
                         \<lparr>idD = ''a-3'', nameD = ''performance''\<rparr>, \<lparr>idD = ''a-4'', nameD = ''style''\<rparr>],
      insertReviews = (\<lambda>i. None)\<rparr>"


text \<open>The report the orchestrator returns for the \<open>i\<close>-th file, and the totals after it.\<close>

definition file_report :: "env \<Rightarrow> nat \<Rightarrow> code_file \<Rightarrow> report" where
  "file_report en i f =
     aggregateResults (map (\<lambda>a. outcome_of a (openai en i a (content f) (language f))) agents)"

definition with_file :: "totals \<Rightarrow> code_file \<Rightarrow> report \<Rightarrow> totals" where
  "with_file acc f res =
     \<lparr>analysisResults =
        analysisResults acc @ [\<lparr>fileF = path f, languageF = language f, results = res\<rparr>],
      totalIssues = totalIssues acc + totalIssuesFound res,
      totalTokensW = js_add (totalTokensW acc) (totalTokens res)\<rparr>"

text \<open>The update sent after the \<open>k\<close>-th of \<open>n\<close> files.\<close>

definition file_update :: "nat \<Rightarrow> nat \<Rightarrow> job_update" where
  "file_update k n =
     no_update\<lparr>set_processed_files := Some k, set_progress := Some (progressPercent k n)\<rparr>"

text \<open>
  A property of event sequences that holds of the empty one, of any single event other than
  an orchestrator call or the log line of the failed-analysis branch, of a concatenation
  when it holds of both parts, and of an orchestrator call followed by a per-file update.
\<close>

definition trace_property :: "(event list \<Rightarrow> bool) \<Rightarrow> bool" where
  "trace_property P \<longleftrightarrow>
     P []
     \<and> (\<forall>xs ys. P xs \<longrightarrow> P ys \<longrightarrow> P (xs @ ys))
     \<and> (\<forall>e. (\<forall>p. e \<noteq> Analysed p) \<longrightarrow> (\<forall>p. e \<noteq> Log (AnalysisFailed p)) \<longrightarrow> P [e])
     \<and> (\<forall>p k n es. P es \<longrightarrow> P (Analysed p # JobUpdate (file_update k n) # es))"








text \<open>
  The invariant of a run: the row is the last snapshot, every snapshot is in bounds, the
  progress of the snapshots and the emitted progress values never decrease, and both stay
  below \<open>c\<close>.
\<close>

definition steady :: "nat \<Rightarrow> world \<Rightarrow> bool" where
  "steady c w \<longleftrightarrow>
     last (job_history (trace w)) = job w
     \<and> sorted (map progress (job_history (trace w)))
     \<and> (\<forall>r\<in>set (job_history (trace w)). in_bounds r)
     \<and> progress (job w) \<le> c
     \<and> sorted (emitted (trace w))
     \<and> (\<forall>p\<in>set (emitted (trace w)). p \<le> c)"


section \<open>Rounding to doubles\<close>


lemma round_half_even_of_int [simp]: "round_half_even (of_int k) = k"
  by (simp add: round_half_even_def)

lemma exponent_bounds:
  assumes "0 < x"
  shows "2 powi exponent x \<le> x" "x < 2 powi (exponent x + 1)"
proof -
  obtain a b where q: "quotient_of x = (a, b)"
    by (cases "quotient_of x")
  then have b: "0 < b" and x: "x = of_int a / of_int b"
    by (simp_all add: quotient_of_denom_pos quotient_of_div)
  have a: "0 < a"
    using assms b x by (simp add: zero_less_divide_iff)
  define la lb where "la = bitlen a" and "lb = bitlen b"
  from bitlen_bounds [OF a] have ba: "2 ^ nat (la - 1) \<le> a" "a < 2 ^ nat la"
    by (simp_all add: la_def)
  from bitlen_bounds [OF b] have bb: "2 ^ nat (lb - 1) \<le> b" "b < 2 ^ nat lb"
    by (simp_all add: lb_def)
  have la: "1 \<le> la" and lb: "1 \<le> lb"
    using a b by (auto simp: la_def lb_def bitlen_alt_def)
  have ra: "(2::rat) powi (la - 1) \<le> of_int a" "of_int a < (2::rat) powi la"
  proof -
    have "(of_int (2 ^ nat (la - 1)) :: rat) \<le> of_int a"
      using ba(1) by (simp only: of_int_le_iff)
    then show "(2::rat) powi (la - 1) \<le> of_int a"
      using la by (simp add: power_int_def)
    have "(of_int a :: rat) < of_int (2 ^ nat la)"
      using ba(2) by (simp only: of_int_less_iff)
    then show "of_int a < (2::rat) powi la"
      using la by (simp add: power_int_def)
  qed
  have rb: "(2::rat) powi (lb - 1) \<le> of_int b" "of_int b < (2::rat) powi lb"
  proof -
    have "(of_int (2 ^ nat (lb - 1)) :: rat) \<le> of_int b"
      using bb(1) by (simp only: of_int_le_iff)
    then show "(2::rat) powi (lb - 1) \<le> of_int b"
      using lb by (simp add: power_int_def)
    have "(of_int b :: rat) < of_int (2 ^ nat lb)"
      using bb(2) by (simp only: of_int_less_iff)
    then show "of_int b < (2::rat) powi lb"
      using lb by (simp add: power_int_def)
  qed
  define d where "d = la - lb"
  have bpos: "(0::rat) < of_int b"
    using b by simp
  have lower: "(2::rat) powi (d - 1) < x"
  proof -
    have "(2::rat) powi (d - 1) * of_int b < 2 powi (d - 1) * 2 powi lb"
      using rb(2) by (simp add: mult_strict_left_mono)
    also have "\<dots> = 2 powi (la - 1)"
      by (simp add: d_def flip: power_int_add)
    also have "\<dots> \<le> of_int a"
      by (rule ra(1))
    finally show ?thesis
      using bpos by (simp add: x pos_less_divide_eq)
  qed
  have upper: "x < (2::rat) powi (d + 1)"
  proof -
    have "of_int a < (2::rat) powi la"
      by (rule ra(2))
    also have "\<dots> = 2 powi (d + 1) * 2 powi (lb - 1)"
      by (simp add: d_def flip: power_int_add)
    also have "\<dots> \<le> 2 powi (d + 1) * of_int b"
      using rb(1) by (simp add: mult_left_mono)
    finally show ?thesis
      using bpos by (simp add: x pos_divide_less_eq)
  qed
  have e: "exponent x = (if 2 powi d \<le> x then d else d - 1)"
    by (simp add: exponent_def q d_def la_def lb_def)
  show "2 powi exponent x \<le> x"
    using lower by (simp add: e)
  show "x < 2 powi (exponent x + 1)"
    using upper by (auto simp: e not_le)
qed

lemma pow2_lessD: "(2::rat) powi a < 2 powi b \<Longrightarrow> a < b"
  using power_int_increasing [of b a "2::rat"] by (cases "a < b") auto

lemma exponent_unique:
  assumes "2 powi e \<le> x" "x < 2 powi (e + 1)"
  shows "exponent x = e"
proof -
  have pos: "0 < x"
    using assms(1) by (rule less_le_trans [rotated]) simp
  note b = exponent_bounds [OF pos]
  have "(2::rat) powi e < 2 powi (exponent x + 1)"
    using assms(1) b(2) by simp
  then have 1: "e < exponent x + 1"
    by (rule pow2_lessD)
  have "(2::rat) powi exponent x < 2 powi (e + 1)"
    using assms(2) b(1) by simp
  then have 2: "exponent x < e + 1"
    by (rule pow2_lessD)
  from 1 2 show ?thesis by simp
qed







text \<open>A number whose significand is an integer is a double.\<close>

lemma double_exact:
  assumes "2 powi e \<le> x" "x < 2 powi (e + 1)" "x / 2 powi (e - 52) = of_int m"
  shows "double x = x"
proof -
  have e: "exponent x = e"
    using assms(1,2) by (rule exponent_unique)
  have "0 < x"
    using assms(1) by (rule less_le_trans [rotated]) simp
  then have "double x = of_int (round_half_even (of_int m)) * 2 powi (e - 52)"
    by (simp add: double_def e assms(3))
  also have "\<dots> = x / 2 powi (e - 52) * 2 powi (e - 52)"
    by (simp only: round_half_even_of_int assms(3))
  also have "\<dots> = x"
    by simp
  finally show ?thesis .
qed



lemma double_80: "double 80 = 80"
  by (rule double_exact [of 6 _ "80 * 2 ^ 46"]) (simp_all add: power_int_minus field_simps)






section \<open>The orchestrator: lemmas\<close>

text \<open>\<open>analyze\<close> never rejects, so \<open>Promise.all\<close> never short-circuits.\<close>

lemma analyze_fulfils: "analyze a r = Inr (outcome_of a r)"
  by (simp add: analyze_def outcome_of_def split: remote.splits)

lemma promise_all_fulfilled: "promise_all (map (\<lambda>x. Inr (f x)) xs) = Inr (map f xs)"
  by (induction xs) simp_all

lemma analyzeCode_returns:
  "analyzeCode backend code lang =
     Inr (aggregateResults (map (\<lambda>a. outcome_of a (backend a code lang)) agents))"
  by (simp add: analyzeCode_def analyze_fulfils promise_all_fulfilled)

lemma Math_round_div:
  assumes "0 < n"
  shows "Math_round (of_int s / of_nat n) = (2 * s + int n) div (2 * int n)"
proof -
  have "(of_int s / of_nat n + 1 / 2 :: rat) = of_int (2 * s + int n) / of_int (2 * int n)"
    using assms by (simp add: field_simps)
  then show ?thesis
    unfolding Math_round_def by (simp only: floor_divide_of_int_eq)
qed

text \<open>The tally after a run of increments, key by key.\<close>

lemma foldl_increment:
  "foldl increment t ks k =
     (if k = ''__proto__'' \<or> k \<notin> set ks then t k
      else Some (case to_number (t k) of Num n \<Rightarrow> Num (n + int (count_list ks k)) | NaN \<Rightarrow> NaN))"
proof (induction ks arbitrary: t)
  case Nil
  then show ?case by simp
next
  case (Cons x ks)
  show ?case
    apply (simp only: foldl_Cons Cons.IH)
    apply (cases "t k"; cases "to_number (t k)")
    apply (auto simp: increment_def js_set_def split: jsnum.splits)
    done
qed

lemma foldl_count_issue:
  "foldl (count_issue r) acc is =
     (foldl increment (fst acc) (map severity is), snd acc @ map (tag_issue r) is)"
  by (induction "is" arbitrary: acc) (simp_all add: count_issue_def)

lemma collect_issues_eq:
  "collect_issues acc r =
     (foldl increment (fst acc) (map severity (issues_of r)), snd acc @ map (tag_issue r) (issues_of r))"
  by (simp add: collect_issues_def issues_of_def foldl_count_issue split: option.splits)

lemma foldl_collect_issues:
  "foldl collect_issues acc rs =
     (foldl increment (fst acc) (map severity (concat (map issues_of rs))),
      snd acc @ concat (map (\<lambda>r. map (tag_issue r) (issues_of r)) rs))"
  by (induction rs arbitrary: acc) (simp_all add: collect_issues_eq)

lemma truncate_tag_issue: "issue.truncate (tag_issue r i) = i"
  by (simp add: tag_issue_def issue.truncate_def issue.extend_def)

lemma severity_tag_issue: "severity (tag_issue r i) = severity i"
  by (simp add: tag_issue_def issue.extend_def)

lemma count_three:
  "\<forall>k\<in>set ks. k = a \<or> k = b \<or> k = c \<Longrightarrow> a \<noteq> b \<Longrightarrow> a \<noteq> c \<Longrightarrow> b \<noteq> c \<Longrightarrow>
     count_list ks a + count_list ks b + count_list ks c = length ks"
  by (induction ks) auto


lemma agentResults_aggregate:
  "agentResults (aggregateResults rs) = filter (\<lambda>r. \<not> truthy_opt_str (error r)) rs"
  by (simp add: aggregateResults_def Let_def)


lemma success_aggregate: "success (aggregateResults rs)"
  by (simp add: aggregateResults_def Let_def)

lemma foldl_plus_sum_list: "foldl (+) (a::int) xs = a + sum_list xs"
  by (induction xs arbitrary: a) simp_all

lemma overallScore_aggregate:
  "overallScore (aggregateResults rs) =
     (let scores = List.map_filter truthy_score (filter (\<lambda>r. \<not> truthy_opt_str (error r)) rs)
      in if scores = [] then 0
         else Math_round (double (of_int (sum_list scores) / of_nat (length scores))))"
  by (simp add: aggregateResults_def Let_def foldl_plus_sum_list)

section \<open>The orchestrator: fan-out and fan-in\<close>




lemma Math_round_int: "Math_round (of_int n) = n"
proof -
  have "Math_round (of_int n) = Math_round (of_int n / of_nat 1)"
    by simp
  also have "\<dots> = (2 * n + 1) div 2"
    by (subst Math_round_div) simp_all
  also have "\<dots> = n"
    by simp
  finally show ?thesis .
qed

lemma Math_round_numeral: "Math_round (numeral k) = numeral k"
  using Math_round_int [of "numeral k"] by simp




text \<open>
  Claim C3. The per-file \<open>overallScore\<close> should be the rounded mean over every successful
  outcome, those scored \<open>0\<close> included. The filter \<open>r.findings && r.findings.score\<close> drops a
  score of \<open>0\<close>: for two successful outcomes scored \<open>0\<close> and \<open>80\<close> the code reports \<open>80\<close>,
  where the mean over both is \<open>40\<close>.
\<close>

theorem aggregateResults_drops_zero_score:
  "overallScore (aggregateResults [scored 0, scored 80]) = 80
   \<and> Math_round (of_int (0 + 80) / of_nat 2) = 40"
proof -
  have "List.map_filter truthy_score [scored 0, scored 80] = [80]"
    by (simp add: List.map_filter_def truthy_score_def scored_def sample_findings_def)
  then have "overallScore (aggregateResults [scored 0, scored 80]) = Math_round (double (of_int 80 / of_nat 1))"
    by (simp add: overallScore_aggregate scored_def Let_def)
  moreover have "Math_round (double (of_int 80 / of_nat 1)) = 80"
    by (simp add: double_80 Math_round_numeral)
  moreover have "Math_round (of_int (0 + 80) / of_nat 2) = 40"
    by (simp add: Math_round_numeral)
  ultimately show ?thesis
    by simp
qed

text \<open>
  Claim C10. Let \<open>found\<close> be the issues of the successful outcomes. \<open>totalIssuesFound\<close> and
  \<open>allIssues\<close> count every one of them, whatever its severity. The buckets \<open>high\<close>,
  \<open>medium\<close> and \<open>low\<close> count the issues carrying exactly that tag; any other tag leaves them
  alone and gets a \<open>NaN\<close> entry of its own (none for \<open>__proto__\<close>), without an error. So
  when every severity is one of the three, the buckets add up to \<open>totalIssuesFound\<close>.
\<close>

theorem aggregateResults_severity_tally:
  fixes results :: "agent_result list"
  defines "rep \<equiv> aggregateResults results"
  defines "found \<equiv> concat (map issues_of (agentResults rep))"
  shows "totalIssuesFound rep = length found
       \<and> map issue.truncate (allIssues rep) = found
       \<and> (\<forall>k\<in>{''high'', ''medium'', ''low''}.
            issuesBySeverity rep k = Some (Num (int (count_list (map severity found) k))))
       \<and> (\<forall>k. k \<notin> {''high'', ''medium'', ''low'', ''__proto__''} \<longrightarrow>
            issuesBySeverity rep k = (if k \<in> severity ` set found then Some NaN else None))
       \<and> issuesBySeverity rep ''__proto__'' = None
       \<and> ((\<forall>i\<in>set found. severity i \<in> {''high'', ''medium'', ''low''}) \<longrightarrow>
            (\<exists>h m l. issuesBySeverity rep ''high'' = Some (Num h)
               \<and> issuesBySeverity rep ''medium'' = Some (Num m)
               \<and> issuesBySeverity rep ''low'' = Some (Num l)
               \<and> h + m + l = int (totalIssuesFound rep)))"
proof -
  let ?ok = "filter (\<lambda>r. \<not> truthy_opt_str (error r)) results"
  let ?t0 = "[''high'' \<mapsto> Num 0, ''medium'' \<mapsto> Num 0, ''low'' \<mapsto> Num 0] :: tally"
  let ?ks = "map severity found"
  have found: "found = concat (map issues_of ?ok)"
    by (simp add: found_def rep_def agentResults_aggregate)
  have tally: "issuesBySeverity rep = foldl increment ?t0 ?ks"
    by (simp add: rep_def aggregateResults_def Let_def foldl_collect_issues found)
  have all: "allIssues rep = concat (map (\<lambda>r. map (tag_issue r) (issues_of r)) ?ok)"
    by (simp add: rep_def aggregateResults_def Let_def foldl_collect_issues)
  have trunc: "map issue.truncate (concat (map (\<lambda>r. map (tag_issue r) (issues_of r)) rs))
      = concat (map issues_of rs)" for rs
    by (induction rs) (simp_all add: o_def truncate_tag_issue)
  have 2: "map issue.truncate (allIssues rep) = found"
    by (simp add: all found trunc)
  have "totalIssuesFound rep = length (allIssues rep)"
    by (simp add: rep_def aggregateResults_def Let_def)
  also have "\<dots> = length found"
    using 2 [symmetric] by simp
  finally have 1: "totalIssuesFound rep = length found" .
  have declared: "issuesBySeverity rep k = Some (Num (int (count_list ?ks k)))"
    if "k \<in> {''high'', ''medium'', ''low''}" for k
    using that by (auto simp: tally foldl_increment)
  have other: "issuesBySeverity rep k = (if k \<in> severity ` set found then Some NaN else None)"
    if "k \<notin> {''high'', ''medium'', ''low'', ''__proto__''}" for k
    using that by (auto simp: tally foldl_increment)
  have proto: "issuesBySeverity rep ''__proto__'' = None"
    by (simp add: tally foldl_increment)
  have sum: "\<exists>h m l. issuesBySeverity rep ''high'' = Some (Num h)
               \<and> issuesBySeverity rep ''medium'' = Some (Num m)
               \<and> issuesBySeverity rep ''low'' = Some (Num l)
               \<and> h + m + l = int (totalIssuesFound rep)"
    if "\<forall>i\<in>set found. severity i \<in> {''high'', ''medium'', ''low''}"
  proof -
    have "\<forall>k\<in>set ?ks. k = ''high'' \<or> k = ''medium'' \<or> k = ''low''"
      using that by auto
    then have "count_list ?ks ''high'' + count_list ?ks ''medium'' + count_list ?ks ''low'' = length ?ks"
      by (rule count_three) simp_all
    then have "int (count_list ?ks ''high'') + int (count_list ?ks ''medium'') + int (count_list ?ks ''low'')
        = int (totalIssuesFound rep)"
      using 1 by simp
    then show ?thesis
      using declared by blast
  qed
  show ?thesis
    using 1 2 declared other proto sum by blast
qed

text \<open>One \<open>critical\<close> issue beside a \<open>high\<close> one; then a \<open>high\<close> and a \<open>low\<close> one.\<close>

theorem aggregateResults_severity_tally_witness:
  "totalIssuesFound (aggregateResults [reported [sample_issue ''high'', sample_issue ''critical'']]) = 2
   \<and> issuesBySeverity (aggregateResults [reported [sample_issue ''high'', sample_issue ''critical'']])
        ''critical'' = Some NaN
   \<and> issuesBySeverity (aggregateResults [reported [sample_issue ''high'', sample_issue ''critical'']])
        ''high'' = Some (Num 1)
   \<and> issuesBySeverity (aggregateResults [reported [sample_issue ''high'', sample_issue ''low'']])
        ''low'' = Some (Num 1)
   \<and> totalIssuesFound (aggregateResults [reported [sample_issue ''high'', sample_issue ''low'']]) = 2"
proof -
  let ?a = "[reported [sample_issue ''high'', sample_issue ''critical'']]"
  let ?b = "[reported [sample_issue ''high'', sample_issue ''low'']]"
  have fa: "concat (map issues_of (agentResults (aggregateResults ?a)))
      = [sample_issue ''high'', sample_issue ''critical'']"
    by (simp add: agentResults_aggregate reported_def issues_of_def sample_findings_def)
  have fb: "concat (map issues_of (agentResults (aggregateResults ?b)))
      = [sample_issue ''high'', sample_issue ''low'']"
    by (simp add: agentResults_aggregate reported_def issues_of_def sample_findings_def)
  note ta = aggregateResults_severity_tally [of ?a, unfolded fa]
  note tb = aggregateResults_severity_tally [of ?b, unfolded fb]
  have 1: "totalIssuesFound (aggregateResults ?a) = 2"
    using ta by simp
  have "''critical'' \<notin> {''high'', ''medium'', ''low'', ''__proto__''}"
    by simp
  with ta have 2: "issuesBySeverity (aggregateResults ?a) ''critical'' = Some NaN"
    by (simp add: sample_issue_def)
  have 3: "issuesBySeverity (aggregateResults ?a) ''high'' = Some (Num 1)"
    using ta by (simp add: sample_issue_def)
  have "\<forall>i\<in>set [sample_issue ''high'', sample_issue ''low'']. severity i \<in> {''high'', ''medium'', ''low''}"
    by (simp add: sample_issue_def)
  with tb have 4: "issuesBySeverity (aggregateResults ?b) ''low'' = Some (Num 1)"
    by (simp add: sample_issue_def)
  have 5: "totalIssuesFound (aggregateResults ?b) = 2"
    using tb by simp
  show ?thesis
    using 1 2 3 4 5 by simp
qed

section \<open>The worker: lemmas\<close>

lemma and_then_succeed [simp]: "and_then (succeed v) f = f v"
  by (rule ext) (simp add: and_then_def succeed_def)

lemma and_then_throw [simp]: "and_then (throw e) f = throw e"
  by (rule ext) (simp add: and_then_def throw_def)






text \<open>Snapshots and progress values of a concatenated trace.\<close>

lemma snapshots_append: "snapshots (xs @ ys) = snapshots xs @ snapshots ys"
  by (induction xs rule: snapshots.induct) simp_all

lemma emitted_append: "emitted (xs @ ys) = emitted xs @ emitted ys"
  by (induction xs rule: emitted.induct) simp_all

lemma analyzeFiles_Cons:
  "analyzeFiles en n i (f # fs) acc =
     and_then (emit (Analysed (path f))) (\<lambda>_.
     and_then (updateJobStatus en (file_update (i + 1) n)) (\<lambda>_.
     and_then (emit (Progress (progressPercent (i + 1) n))) (\<lambda>_.
     analyzeFiles en n (i + 1) fs (with_file acc f (file_report en i f)))))"
  by (simp add: analyzeCode_returns success_aggregate file_report_def with_file_def file_update_def)

declare analyzeFiles.simps(2) [simp del]

lemma appendsI:
  assumes "\<And>w. \<exists>es. trace (snd (m w)) = trace w @ es \<and> P es"
  shows "appends P m"
  using assms by (simp add: appends_def)

lemma appends_and_then:
  assumes tp: "trace_property P" and m: "appends P m" and f: "\<And>a. appends P (f a)"
  shows "appends P (and_then m f)"
proof (rule appendsI)
  fix w
  obtain r w1 where mw: "m w = (r, w1)"
    by (cases "m w")
  from m obtain xs where xs: "trace w1 = trace w @ xs" "P xs"
    unfolding appends_def using mw by (metis snd_conv)
  show "\<exists>es. trace (snd (and_then m f w)) = trace w @ es \<and> P es"
  proof (cases r)
    case (Inl e)
    then show ?thesis
      using mw xs by (auto simp: and_then_def)
  next
    case (Inr a)
    from f [of a] obtain ys where ys: "trace (snd (f a w1)) = trace w1 @ ys" "P ys"
      unfolding appends_def by blast
    have "P (xs @ ys)"
      using tp xs(2) ys(2) by (simp add: trace_property_def)
    then show ?thesis
      using mw Inr xs ys by (auto simp: and_then_def)
  qed
qed

lemma appends_succeed: "trace_property P \<Longrightarrow> appends P (succeed v)"
  by (simp add: appends_def succeed_def trace_property_def)

lemma appends_throw: "trace_property P \<Longrightarrow> appends P (throw e)"
  by (simp add: appends_def throw_def trace_property_def)

lemma appends_emit:
  assumes "trace_property P" "\<And>p. e \<noteq> Analysed p" "\<And>p. e \<noteq> Log (AnalysisFailed p)"
  shows "appends P (emit e)"
  using assms by (simp add: appends_def emit_def trace_property_def)

lemma appends_silent:
  assumes "trace_property P" "\<And>w. trace (snd (m w)) = trace w"
  shows "appends P m"
  using assms by (simp add: appends_def trace_property_def)

lemma trace_property_two:
  assumes "trace_property P" "\<And>p. a \<noteq> Analysed p" "\<And>p. a \<noteq> Log (AnalysisFailed p)"
    "\<And>p. b \<noteq> Analysed p" "\<And>p. b \<noteq> Log (AnalysisFailed p)"
  shows "P [a, b]"
proof -
  have "P ([a] @ [b])"
    using assms unfolding trace_property_def by blast
  then show ?thesis by simp
qed

lemma appends_updateJobStatus: "trace_property P \<Longrightarrow> appends P (updateJobStatus en u)"
  by (rule appendsI)
    (auto simp: updateJobStatus_def Let_def trace_property_two split: option.splits)

lemma appends_updateRepositoryStatus: "trace_property P \<Longrightarrow> appends P (updateRepositoryStatus en s)"
  by (rule appendsI)
    (auto simp: updateRepositoryStatus_def Let_def trace_property_def split: option.splits)

lemma appends_cloneRepository:
  assumes tp: "trace_property P"
  shows "appends P (cloneRepository en)"
proof (cases "gitClone en")
  case None
  then show ?thesis
    by (simp add: cloneRepository_def appends_silent [OF tp])
next
  case (Some msg)
  then show ?thesis
    by (simp add: cloneRepository_def appends_and_then [OF tp] appends_emit [OF tp] appends_throw [OF tp])
qed

lemma appends_analyzeFiles:
  assumes tp: "trace_property P"
  shows "appends P (analyzeFiles en n i fs acc)"
proof (induction fs arbitrary: i acc)
  case Nil
  then show ?case by (simp add: appends_succeed tp)
next
  case (Cons f fs)
  let ?k = "\<lambda>_::unit. and_then (emit (Progress (progressPercent (i + 1) n))) (\<lambda>_.
     analyzeFiles en n (i + 1) fs (with_file acc f (file_report en i f)))"
  have k: "appends P (?k ())"
    by (intro appends_and_then appends_emit tp Cons.IH) simp_all
  show ?case
  proof (rule appendsI)
    fix w :: world
    let ?w1 = "w\<lparr>trace := trace w @ [Analysed (path f)]\<rparr>"
    let ?w2 = "?w1\<lparr>writes := Suc (writes ?w1), trace := trace ?w1 @ [JobUpdate (file_update (i + 1) n)]\<rparr>"
    show "\<exists>es. trace (snd (analyzeFiles en n i (f # fs) acc w)) = trace w @ es \<and> P es"
    proof (cases "storeError en (writes w)")
      case (Some msg)
      have "P [Log (UpdateJobFailed msg)]"
        using tp by (simp add: trace_property_def)
      then have "P (Analysed (path f) # JobUpdate (file_update (i + 1) n) # [Log (UpdateJobFailed msg)])"
        using tp unfolding trace_property_def by blast
      then show ?thesis
        using Some by (simp add: analyzeFiles_Cons and_then_def emit_def updateJobStatus_def Let_def)
    next
      case None
      let ?w3 = "?w2\<lparr>job := apply_update (file_update (i + 1) n) (job w),
                  trace := trace ?w2 @ [JobState (apply_update (file_update (i + 1) n) (job w))]\<rparr>"
      from k obtain ys where ys: "trace (snd (?k () ?w3)) = trace ?w3 @ ys" "P ys"
        unfolding appends_def by blast
      have "P [JobState (apply_update (file_update (i + 1) n) (job w))]"
        using tp by (simp add: trace_property_def)
      then have "P ([JobState (apply_update (file_update (i + 1) n) (job w))] @ ys)"
        using tp ys(2) unfolding trace_property_def by blast
      then have "P (Analysed (path f) # JobUpdate (file_update (i + 1) n)
                     # ([JobState (apply_update (file_update (i + 1) n) (job w))] @ ys))"
        using tp unfolding trace_property_def by blast
      moreover have "analyzeFiles en n i (f # fs) acc w = ?k () ?w3"
        using None by (simp add: analyzeFiles_Cons and_then_def emit_def updateJobStatus_def Let_def)
      ultimately show ?thesis
        using ys(1) by simp
    qed
  qed
qed

lemma appends_saveResults: "trace_property P \<Longrightarrow> appends P (saveResults en row)"
  by (cases "insertResults en")
    (simp_all add: saveResults_def appends_silent appends_and_then appends_emit appends_throw)

lemma appends_fetchAgents:
  assumes tp: "trace_property P"
  shows "appends P (fetchAgents en)"
  unfolding fetchAgents_def
  by (intro appends_and_then [OF tp])
    (auto split: sum.splits option.splits
      intro!: appends_and_then [OF tp] appends_emit [OF tp] appends_succeed [OF tp])

lemma appends_flattenIssue:
  assumes tp: "trace_property P"
  shows "appends P (flattenIssue en agentMap filePath i)"
  unfolding flattenIssue_def Let_def
  by (auto split: sum.splits
      intro!: appends_and_then [OF tp] appends_emit [OF tp] appends_succeed [OF tp]
        appends_throw [OF tp])

lemma appends_flattenIssues:
  assumes tp: "trace_property P"
  shows "appends P (flattenIssues en agentMap filePath is allFindings)"
  by (induction "is" arbitrary: allFindings)
    (auto intro!: appends_and_then [OF tp] appends_succeed [OF tp] appends_flattenIssue [OF tp])

lemma appends_flattenResults:
  assumes tp: "trace_property P"
  shows "appends P (flattenResults en agentMap frs allFindings)"
  by (induction frs arbitrary: allFindings)
    (auto intro!: appends_and_then [OF tp] appends_succeed [OF tp] appends_emit [OF tp]
      appends_flattenIssues [OF tp])

lemma appends_insertBatches:
  assumes tp: "trace_property P"
  shows "appends P (insertBatches en allFindings i)"
proof (induction en allFindings i rule: insertBatches.induct)
  case (1 en allFindings i)
  show ?case
  proof (cases "i < length allFindings")
    case True
    have "appends P (case insertReviews en i of
                Some msg \<Rightarrow> emit (Log (InsertBatchFailed (i div BATCH_SIZE + 1) msg))
              | None \<Rightarrow>
                  (\<lambda>w. (Inr (), w\<lparr>reviews := reviews w @ take BATCH_SIZE (drop i allFindings)\<rparr>)))"
      by (cases "insertReviews en i") (simp_all add: appends_emit [OF tp] appends_silent [OF tp])
    then show ?thesis
      using True 1 by (subst insertBatches.simps) (simp add: appends_and_then [OF tp])
  next
    case False
    then show ?thesis
      by (subst insertBatches.simps) (simp add: appends_succeed [OF tp])
  qed
qed

lemma appends_saveFindings:
  assumes tp: "trace_property P"
  shows "appends P (saveFindings en acc)"
  unfolding saveFindings_def
  by (auto intro!: appends_and_then [OF tp] appends_fetchAgents [OF tp]
      appends_flattenResults [OF tp] appends_insertBatches [OF tp] appends_succeed [OF tp])

lemma appends_fetchRepository: "trace_property P \<Longrightarrow> appends P (fetchRepository en)"
  by (cases "repository en") (simp_all add: fetchRepository_def appends_throw appends_succeed)

lemma appends_tryBlock:
  assumes tp: "trace_property P"
  shows "appends P (tryBlock en)"
  unfolding tryBlock_def Let_def
  by (intro appends_and_then [OF tp] appends_fetchRepository [OF tp]
      appends_updateJobStatus [OF tp] appends_updateRepositoryStatus [OF tp]
      appends_emit [OF tp] appends_cloneRepository [OF tp] appends_analyzeFiles [OF tp]
      appends_saveResults [OF tp] appends_saveFindings [OF tp] appends_succeed [OF tp])
    simp_all

lemma appends_catchBlock:
  assumes tp: "trace_property P"
  shows "appends P (catchBlock en msg)"
  unfolding catchBlock_def
  by (intro appends_and_then [OF tp] appends_updateJobStatus [OF tp]
      appends_updateRepositoryStatus [OF tp] appends_emit [OF tp] appends_throw [OF tp])
    simp_all

lemma trace_finallyBlock:
  "trace_property P \<Longrightarrow> \<exists>es. trace (finallyBlock w) = trace w @ es \<and> P es"
  by (cases "cleanup w") (auto simp: finallyBlock_def trace_property_def)

lemma appends_processReviewJob:
  assumes tp: "trace_property P"
  shows "appends P (processReviewJob en)"
proof (rule appendsI)
  fix w
  have app: "P (xs @ ys)" if "P xs" "P ys" for xs ys
    using tp that by (simp add: trace_property_def)
  obtain r w1 where t: "tryBlock en w = (r, w1)"
    by (cases "tryBlock en w")
  from appends_tryBlock [OF tp, of en] t obtain xs where xs: "trace w1 = trace w @ xs" "P xs"
    unfolding appends_def by (metis snd_conv)
  show "\<exists>es. trace (snd (processReviewJob en w)) = trace w @ es \<and> P es"
  proof (cases r)
    case (Inr v)
    from trace_finallyBlock [OF tp, of w1] obtain zs
      where zs: "trace (finallyBlock w1) = trace w1 @ zs" "P zs" by blast
    then show ?thesis
      using t Inr xs app [OF xs(2) zs(2)] by (auto simp: processReviewJob_def)
  next
    case (Inl msg)
    obtain r2 w2 where c: "catchBlock en msg w1 = (r2, w2)"
      by (cases "catchBlock en msg w1")
    from appends_catchBlock [OF tp, of en msg] c obtain ys where ys: "trace w2 = trace w1 @ ys" "P ys"
      unfolding appends_def by (metis snd_conv)
    from trace_finallyBlock [OF tp, of w2] obtain zs
      where zs: "trace (finallyBlock w2) = trace w2 @ zs" "P zs" by blast
    have "P (xs @ ys @ zs)"
      by (intro app xs ys zs)
    then show ?thesis
      using t Inl c xs ys zs by (auto simp: processReviewJob_def)
  qed
qed



lemma trace_property_without:
  "trace_property (\<lambda>es. Log (AnalysisFailed p) \<notin> set es)"
  unfolding trace_property_def by auto




lemma and_then_Inl: "m w = (Inl e, w') \<Longrightarrow> and_then m f w = (Inl e, w')"
  by (simp add: and_then_def)

lemma specialtyI_tag_issue: "specialtyI (tag_issue r i) = specialtyR r"
  by (simp add: tag_issue_def issue.extend_def)

lemma allIssues_aggregate:
  "allIssues (aggregateResults rs)
     = concat (map (\<lambda>r. map (tag_issue r) (issues_of r)) (filter (\<lambda>r. \<not> truthy_opt_str (error r)) rs))"
  by (simp add: aggregateResults_def Let_def foldl_collect_issues)

lemma specialtyR_outcome_of: "specialtyR (outcome_of a r) = specialty a"
  by (simp add: outcome_of_def split: remote.splits)

lemma known_specialties_file_report: "known_specialties (file_report en i f)"
  by (auto simp: known_specialties_def file_report_def allIssues_aggregate specialtyI_tag_issue
      specialtyR_outcome_of)







lemma updateJobStatus_accepted:
  "storeError en (writes w) = None \<Longrightarrow>
     updateJobStatus en u w =
       (Inr (), w\<lparr>writes := Suc (writes w),
                  trace := trace w @ [JobUpdate u, JobState (apply_update u (job w))],
                  job := apply_update u (job w)\<rparr>)"
  by (simp add: updateJobStatus_def Let_def)






text \<open>With a store that accepts every update, the loop over the files returns.\<close>

lemma analyzeFiles_returns:
  assumes ok: "\<forall>k. storeError en k = None"
    and known: "\<forall>fr\<in>set (analysisResults acc). known_specialties (results fr)"
  shows "\<exists>acc' w'. analyzeFiles en n i fs acc w = (Inr acc', w')
           \<and> (\<forall>fr\<in>set (analysisResults acc'). known_specialties (results fr))
           \<and> status (job w') = status (job w)
           \<and> review_results w' = review_results w \<and> reviews w' = reviews w
           \<and> emitted (trace w') =
               emitted (trace w) @ map (\<lambda>k. progressPercent k n) [Suc i..<Suc (i + length fs)]"
  using known
proof (induction fs arbitrary: i acc w)
  case Nil
  then show ?case by (simp add: succeed_def)
next
  case (Cons f fs)
  let ?u = "file_update (i + 1) n"
  let ?w1 = "w\<lparr>trace := trace w @ [Analysed (path f)]\<rparr>"
  let ?w2 = "?w1\<lparr>writes := Suc (writes ?w1),
                 trace := trace ?w1 @ [JobUpdate ?u, JobState (apply_update ?u (job ?w1))],
                 job := apply_update ?u (job ?w1)\<rparr>"
  let ?w3 = "?w2\<lparr>trace := trace ?w2 @ [Progress (progressPercent (i + 1) n)]\<rparr>"
  let ?acc = "with_file acc f (file_report en i f)"
  have step: "analyzeFiles en n i (f # fs) acc w = analyzeFiles en n (i + 1) fs ?acc ?w3"
    using ok
    by (simp add: analyzeFiles_Cons and_then_def emit_def updateJobStatus_accepted)
  have "\<forall>fr\<in>set (analysisResults ?acc). known_specialties (results fr)"
    using Cons.prems by (simp add: with_file_def known_specialties_file_report)
  from Cons.IH [OF this, of "i + 1" ?w3] obtain acc' w'
    where "analyzeFiles en n (i + 1) fs ?acc ?w3 = (Inr acc', w')"
      "\<forall>fr\<in>set (analysisResults acc'). known_specialties (results fr)"
      "status (job w') = status (job ?w3)"
      "review_results w' = review_results ?w3" "reviews w' = reviews ?w3"
      "emitted (trace w') =
         emitted (trace ?w3) @ map (\<lambda>k. progressPercent k n) [Suc (i + 1)..<Suc (i + 1 + length fs)]"
    by blast
  moreover have "[Suc i..<Suc (i + length (f # fs))] = Suc i # [Suc (i + 1)..<Suc (i + 1 + length fs)]"
    by (subst upt_rec) simp
  ultimately show ?case
    unfolding step
    by (simp add: apply_update_def file_update_def no_update_def emitted_append)
qed


lemma analyzeFiles_keeps_every_file:
  "analyzeFiles en n i fs acc w = (Inr acc', w') \<Longrightarrow>
     map fileF (analysisResults acc') = map fileF (analysisResults acc) @ map path fs"
proof (induction fs arbitrary: i acc w)
  case Nil
  then show ?case by (simp add: succeed_def)
next
  case (Cons f fs)
  from Cons.prems obtain w1 where
    "analyzeFiles en n (i + 1) fs (with_file acc f (file_report en i f)) w1 = (Inr acc', w')"
    by (auto simp: analyzeFiles_Cons and_then_def emit_def split: prod.splits sum.splits)
  from Cons.IH [OF this] show ?case
    by (simp add: with_file_def)
qed

text \<open>
  Claim C9. Whenever \<open>analyzeCode\<close> returns, the report has \<open>success = true\<close>, however many
  agents failed. So the worker's \<open>else\<close> branch for a per-file result is never taken: no
  run adds its log line, and the loop that returns has put every file into
  \<open>analysisResults\<close>.
\<close>

theorem failed_analysis_branch_unreachable:
  "(analyzeCode backend code lang = Inr rep \<longrightarrow> success rep)
   \<and> (Log (AnalysisFailed p) \<notin> set (trace w) \<longrightarrow>
        Log (AnalysisFailed p) \<notin> set (trace (snd (processReviewJob en w))))
   \<and> (analyzeFiles en n i fs acc w = (Inr acc', w') \<longrightarrow>
        map fileF (analysisResults acc') = map fileF (analysisResults acc) @ map path fs)"
proof -
  have 1: "success rep" if "analyzeCode backend code lang = Inr rep"
    using that by (auto simp: analyzeCode_returns success_aggregate)
  have 2: "Log (AnalysisFailed p) \<notin> set (trace (snd (processReviewJob en w)))"
    if "Log (AnalysisFailed p) \<notin> set (trace w)"
  proof -
    from appends_processReviewJob [OF trace_property_without, of p en]
    obtain es where "trace (snd (processReviewJob en w)) = trace w @ es"
      "Log (AnalysisFailed p) \<notin> set es"
      unfolding appends_def by blast
    then show ?thesis
      using that by simp
  qed
  show ?thesis
    using 1 2 analyzeFiles_keeps_every_file by blast
qed

text \<open>
  Claim C9 on the sample run, in which the Security agent fails for the only file: the
  report is a success, the run logs no failed analysis, and the loop keeps the file.
\<close>

theorem failed_analysis_branch_unreachable_witness:
  "success (projr (analyzeCode security_times_out ''f(x)'' ''JavaScript''))
   \<and> Log (AnalysisFailed ''src/a.js'') \<notin> set (trace (snd (processReviewJob sample_env start)))
   \<and> map fileF (analysisResults (projr (fst
         (analyzeFiles sample_env 1 0 (parsedFiles sample_env)
            \<lparr>analysisResults = [], totalIssues = 0, totalTokensW = Num 0\<rparr> start))))
       = [''src/a.js'']"
proof -
  let ?acc = "\<lparr>analysisResults = [], totalIssues = 0, totalTokensW = Num 0\<rparr>"
  have r: "analyzeCode security_times_out ''f(x)'' ''JavaScript''
      = Inr (projr (analyzeCode security_times_out ''f(x)'' ''JavaScript''))"
    by (simp add: analyzeCode_returns)
  have t: "Log (AnalysisFailed ''src/a.js'') \<notin> set (trace start)"
    by (simp add: start_def)
  have ok: "\<forall>k. storeError sample_env k = None"
    by (simp add: sample_env_def)
  have known: "\<forall>fr\<in>set (analysisResults ?acc). known_specialties (results fr)"
    by simp
  from analyzeFiles_returns [OF ok known, of 1 0 "parsedFiles sample_env" start]
  obtain acc' w' where
    run: "analyzeFiles sample_env 1 0 (parsedFiles sample_env) ?acc start = (Inr acc', w')"
    by blast
  note c = failed_analysis_branch_unreachable
    [of security_times_out "''f(x)''" "''JavaScript''"
        "projr (analyzeCode security_times_out ''f(x)'' ''JavaScript'')" "''src/a.js''" start
        sample_env 1 0 "parsedFiles sample_env" ?acc acc' w']
  from c r t run have
    "success (projr (analyzeCode security_times_out ''f(x)'' ''JavaScript''))"
    "Log (AnalysisFailed ''src/a.js'') \<notin> set (trace (snd (processReviewJob sample_env start)))"
    "map fileF (analysisResults acc') = map fileF (analysisResults ?acc) @ map path (parsedFiles sample_env)"
    by blast+
  moreover have "map path (parsedFiles sample_env) = [''src/a.js'']"
    by (simp add: sample_env_def)
  ultimately show ?thesis
    using run by simp
qed










lemma steady_Progress:
  assumes "steady c w" "c \<le> p"
  shows "steady p (w\<lparr>trace := trace w @ [Progress p]\<rparr>)"
  using assms
  by (auto simp: steady_def job_history_def snapshots_append emitted_append sorted_append)






















lemma triple_succeed: "(\<And>w. P w \<Longrightarrow> Q v w) \<Longrightarrow> triple P (succeed v) Q E"
  by (simp add: triple_def succeed_def)


lemma triple_Progress:
  assumes "c \<le> p"
  shows "triple (\<lambda>w. steady c w \<and> G (job w)) (emit (Progress p)) (\<lambda>_ w. steady p w \<and> G (job w)) E"
  using assms by (auto simp: triple_def emit_def steady_Progress)



















section \<open>The review queue is keyed by job id\<close>









end
